theory Spec2Isabelle
  imports Main
begin

section \<open>The task revision scheduler of generate\_template\_prototype3.py\<close>

text \<open>
  The class \<^verbatim>\<open>TaskScheduler\<close> holds two dictionaries: \<^verbatim>\<open>tasks\<close>, from a task
  name to its definition, and \<^verbatim>\<open>schedule\<close>, a \<^verbatim>\<open>defaultdict(list)\<close> from a date to
  the names due on it. Python dictionaries keep their keys in insertion order and
  \<^verbatim>\<open>generate_schedule\<close> iterates over \<^verbatim>\<open>tasks.items()\<close>, so both are modelled as
  association lists in insertion order.
\<close>

subsection \<open>Dates\<close>

text \<open>
  A \<^verbatim>\<open>datetime.date\<close> is represented by its proleptic Gregorian ordinal
  (\<^verbatim>\<open>date.toordinal()\<close>): day 1 is 0001-01-01 and the last date, 9999-12-31, is day
  3652059. Comparison of dates is comparison of ordinals. \<^verbatim>\<open>datetime.timedelta(days=n)\<close>
  raises \<^verbatim>\<open>OverflowError\<close> when the magnitude of \<^verbatim>\<open>n\<close> exceeds 999999999, and
  adding a timedelta to a date raises \<^verbatim>\<open>OverflowError\<close> when the result is not a date.
\<close>

type_synonym date = int

datatype py_error = OverflowError | OSError | ValueError

definition MINORD :: int where
  "MINORD = 1"

definition MAXORD :: int where
  "MAXORD = 3652059"

definition valid_date :: "date \<Rightarrow> bool" where
  "valid_date d \<longleftrightarrow> MINORD \<le> d \<and> d \<le> MAXORD"

definition date_add :: "date \<Rightarrow> int \<Rightarrow> py_error + date" where
  "date_add d n =
     (if \<bar>n\<bar> > 999999999 then Inl OverflowError
      else if valid_date (d + n) then Inr (d + n)
      else Inl OverflowError)"

subsection \<open>Dictionaries in insertion order\<close>

text \<open>\<^verbatim>\<open>d[k] = v\<close>: an existing key keeps its position, a new key goes to the end.\<close>

fun dict_set :: "('k \<times> 'v) list \<Rightarrow> 'k \<Rightarrow> 'v \<Rightarrow> ('k \<times> 'v) list" where
  "dict_set [] k v = [(k, v)]"
| "dict_set ((k', v') # kvs) k v =
     (if k' = k then (k, v) # kvs else (k', v') # dict_set kvs k v)"

text \<open>\<^verbatim>\<open>d.get(k, [])\<close>: a lookup that never inserts.\<close>

fun dict_get :: "('k \<times> 'v list) list \<Rightarrow> 'k \<Rightarrow> 'v list" where
  "dict_get [] k = []"
| "dict_get ((k', v') # kvs) k = (if k' = k then v' else dict_get kvs k)"

text \<open>
  \<^verbatim>\<open>d[k]\<close> on a \<^verbatim>\<open>defaultdict(list)\<close>: a missing key is inserted with a fresh empty
  list, which is returned. The result is the list and the dictionary after the lookup.
\<close>

fun defaultdict_getitem ::
  "('k \<times> 'v list) list \<Rightarrow> 'k \<Rightarrow> 'v list \<times> ('k \<times> 'v list) list" where
  "defaultdict_getitem [] k = ([], [(k, [])])"
| "defaultdict_getitem ((k', v') # kvs) k =
     (if k' = k then (v', (k', v') # kvs)
      else (case defaultdict_getitem kvs k of (r, kvs') \<Rightarrow> (r, (k', v') # kvs')))"

text \<open>
  \<^verbatim>\<open>schedule[review_date].append(task_name)\<close>: the lookup, which may insert the key,
  then the append to the list stored under the key.
\<close>

definition schedule_append ::
  "(date \<times> string list) list \<Rightarrow> date \<Rightarrow> string \<Rightarrow> (date \<times> string list) list" where
  "schedule_append sched d name =
     (case defaultdict_getitem sched d of (ts, sched') \<Rightarrow> dict_set sched' d (ts @ [name]))"

subsection \<open>The scheduler state\<close>

record task_info =
  intervals :: "int list"
  start_date :: date

record scheduler =
  tasks :: "(string \<times> task_info) list"
  schedule :: "(date \<times> string list) list"

text \<open>\<^verbatim>\<open>__init__\<close>\<close>

definition init :: scheduler where
  "init = \<lparr>tasks = [], schedule = []\<rparr>"

text \<open>
  A method mutates the object in place, so an exception leaves the object as it was when
  the exception was raised: an outcome carries the state in both cases.
\<close>

datatype 'a outcome = Returned 'a | Raised py_error 'a

fun state_of :: "'a outcome \<Rightarrow> 'a" where
  "state_of (Returned s) = s"
| "state_of (Raised e s) = s"

fun is_Returned :: "'a outcome \<Rightarrow> bool" where
  "is_Returned (Returned s) = True"
| "is_Returned (Raised e s) = False"

subsection \<open>add\_task\<close>

text \<open>
  The loop \<^verbatim>\<open>for interval in intervals\<close> of \<^verbatim>\<open>add_task\<close>, over the schedule
  dictionary.
\<close>

fun add_task_loop ::
  "string \<Rightarrow> date \<Rightarrow> int list \<Rightarrow> (date \<times> string list) list
     \<Rightarrow> (date \<times> string list) list outcome" where
  "add_task_loop name start [] sched = Returned sched"
| "add_task_loop name start (i # is) sched =
     (case date_add start i of
        Inl e \<Rightarrow> Raised e sched
      | Inr review_date \<Rightarrow> add_task_loop name start is (schedule_append sched review_date name))"

text \<open>
  \<^verbatim>\<open>today\<close> is the value of \<^verbatim>\<open>datetime.date.today()\<close> at the call; a
  \<^verbatim>\<open>start_date\<close> of \<^verbatim>\<open>None\<close> is \<open>None\<close>.
\<close>

definition add_task ::
  "date \<Rightarrow> scheduler \<Rightarrow> string \<Rightarrow> int list \<Rightarrow> date option \<Rightarrow> scheduler outcome" where
  "add_task today s task_name ivs start =
     (let start' = (case start of None \<Rightarrow> today | Some d \<Rightarrow> d);
          s1 = s\<lparr>tasks := dict_set (tasks s) task_name \<lparr>intervals = ivs, start_date = start'\<rparr>\<rparr>
      in map_outcome (\<lambda>sched. s1\<lparr>schedule := sched\<rparr>)
           (add_task_loop task_name start' ivs (schedule s1)))"

subsection \<open>add\_task\_with\_repetitions\<close>

text \<open>
  The loop \<^verbatim>\<open>for _ in range(repetitions)\<close>, with the number of iterations left, the
  list built so far and \<^verbatim>\<open>current_interval\<close>.
\<close>

fun repetition_loop :: "nat \<Rightarrow> int \<Rightarrow> int list \<Rightarrow> int \<Rightarrow> int list" where
  "repetition_loop 0 interval ivs current_interval = ivs"
| "repetition_loop (Suc n) interval ivs current_interval =
     repetition_loop n interval (ivs @ [current_interval]) (current_interval + interval)"

text \<open>\<^verbatim>\<open>range(repetitions)\<close> is empty for a negative count.\<close>

definition add_task_with_repetitions ::
  "date \<Rightarrow> scheduler \<Rightarrow> string \<Rightarrow> int \<Rightarrow> int \<Rightarrow> date option \<Rightarrow> scheduler outcome" where
  "add_task_with_repetitions today s task_name interval repetitions start =
     (let start' = (case start of None \<Rightarrow> today | Some d \<Rightarrow> d);
          ivs = repetition_loop (nat repetitions) interval [] 0
      in add_task today s task_name ivs (Some start'))"

subsection \<open>generate\_schedule\<close>

text \<open>The inner loop, over the intervals of one task.\<close>

fun generate_intervals ::
  "date \<Rightarrow> date \<Rightarrow> string \<Rightarrow> date \<Rightarrow> int list \<Rightarrow> (date \<times> string list) list
     \<Rightarrow> (date \<times> string list) list outcome" where
  "generate_intervals lo hi name start [] sched = Returned sched"
| "generate_intervals lo hi name start (i # is) sched =
     (case date_add start i of
        Inl e \<Rightarrow> Raised e sched
      | Inr review_date \<Rightarrow>
          generate_intervals lo hi name start is
            (if lo \<le> review_date \<and> review_date \<le> hi
             then schedule_append sched review_date name else sched))"

text \<open>The outer loop, over \<^verbatim>\<open>self.tasks.items()\<close>.\<close>

fun generate_tasks ::
  "date \<Rightarrow> date \<Rightarrow> (string \<times> task_info) list \<Rightarrow> (date \<times> string list) list
     \<Rightarrow> (date \<times> string list) list outcome" where
  "generate_tasks lo hi [] sched = Returned sched"
| "generate_tasks lo hi ((name, info) # ts) sched =
     (case generate_intervals lo hi name (start_date info) (intervals info) sched of
        Raised e sched' \<Rightarrow> Raised e sched'
      | Returned sched' \<Rightarrow> generate_tasks lo hi ts sched')"

text \<open>
  The end of the window is computed before the schedule is cleared, so an overflow
  there leaves the state untouched.
\<close>

definition generate_schedule :: "date \<Rightarrow> scheduler \<Rightarrow> int \<Rightarrow> scheduler outcome" where
  "generate_schedule today s days =
     (case date_add today days of
        Inl e \<Rightarrow> Raised e s
      | Inr end_date \<Rightarrow>
          map_outcome (\<lambda>sched. s\<lparr>schedule := sched\<rparr>)
            (generate_tasks today end_date (tasks s) []))"

subsection \<open>get\_tasks\_for\_date\<close>

text \<open>The result of the call and the state after it.\<close>

definition get_tasks_for_date :: "scheduler \<Rightarrow> date \<Rightarrow> string list \<times> scheduler" where
  "get_tasks_for_date s d = (dict_get (schedule s) d, s)"

subsection \<open>export\_to\_csv\<close>

text \<open>
  The standard library's part of the export, modelled from its documentation and its
  reference implementation: \<^verbatim>\<open>date.weekday()\<close> is \<^verbatim>\<open>(toordinal() + 6) % 7\<close>,
  \<^verbatim>\<open>calendar.day_name\<close> in the C locale (the program never sets another one),
  the conversion of an ordinal to year, month and day (\<^verbatim>\<open>_ord2ymd\<close> of datetime.py),
  and \<^verbatim>\<open>strftime('%Y-%m-%d')\<close> as the C library of the interpreter formats it: the
  year in decimal without padding (\<^verbatim>\<open>1-01-01\<close> for the first date, \<^verbatim>\<open>999-12-31\<close>),
  month and day padded to two digits.
\<close>

definition weekday :: "date \<Rightarrow> nat" where
  "weekday d = nat ((d + 6) mod 7)"

definition day_name :: "string list" where
  "day_name = [''Monday'', ''Tuesday'', ''Wednesday'', ''Thursday'', ''Friday'',
               ''Saturday'', ''Sunday'']"

definition DAYS_IN_MONTH :: "int list" where
  "DAYS_IN_MONTH = [-1, 31, 28, 31, 30, 31, 30, 31, 31, 30, 31, 30, 31]"

definition DAYS_BEFORE_MONTH :: "int list" where
  "DAYS_BEFORE_MONTH = [-1, 0, 31, 59, 90, 120, 151, 181, 212, 243, 273, 304, 334]"

text \<open>
  The second half of \<^verbatim>\<open>_ord2ymd\<close>: month and day of the month from the flag of a
  leap year and the number of days since the first of January, by an estimate of the
  month that is too large by at most one.
\<close>

definition month_day :: "bool \<Rightarrow> int \<Rightarrow> int \<times> int" where
  "month_day leapyear n =
     (let month = (n + 50) div 32;
          preceding = DAYS_BEFORE_MONTH ! nat month + (if month > 2 \<and> leapyear then 1 else 0)
      in if preceding > n
         then (let month' = month - 1;
                   preceding' = preceding - (DAYS_IN_MONTH ! nat month'
                                  + (if month' = 2 \<and> leapyear then 1 else 0))
               in (month', n - preceding' + 1))
         else (month, n - preceding + 1))"

text \<open>
  The middle of \<^verbatim>\<open>_ord2ymd\<close>, from the numbers of whole 400-year, 100-year and 4-year
  cycles and single years before the date and the days left: the last day of a leap
  cycle is the 31st of December of the year before.
\<close>

definition ymd_of_cycles :: "int \<Rightarrow> int \<Rightarrow> int \<Rightarrow> int \<Rightarrow> int \<Rightarrow> int \<times> int \<times> int" where
  "ymd_of_cycles n400 n100 n4 n1 n =
     (let year = n400 * 400 + 1 + n100 * 100 + n4 * 4 + n1
      in if n1 = 4 \<or> n100 = 4 then (year - 1, 12, 31)
         else (case month_day (n1 = 3 \<and> (n4 \<noteq> 24 \<or> n100 = 3)) n of
                 (month, day) \<Rightarrow> (year, month, day)))"

text \<open>The chain of \<^verbatim>\<open>divmod\<close> at the start of \<^verbatim>\<open>_ord2ymd\<close>.\<close>

definition ord2ymd :: "int \<Rightarrow> int \<times> int \<times> int" where
  "ord2ymd n =
     (let n0 = n - 1;
          r400 = n0 mod 146097;
          r100 = r400 mod 36524;
          r4 = r100 mod 1461
      in ymd_of_cycles (n0 div 146097) (r400 div 36524) (r100 div 1461) (r4 div 365)
           (r4 mod 365))"

definition digit_char :: "nat \<Rightarrow> char" where
  "digit_char n = ''0123456789'' ! n"

text \<open>The last \<open>w\<close> decimal digits of \<open>n\<close>, padded with zeros on the left.\<close>

fun zero_padded :: "nat \<Rightarrow> nat \<Rightarrow> string" where
  "zero_padded 0 n = []"
| "zero_padded (Suc w) n = zero_padded w (n div 10) @ [digit_char (n mod 10)]"

text \<open>The decimal digits of \<open>n\<close>, without padding.\<close>

fun decimal :: "nat \<Rightarrow> string" where
  "decimal n = (if n < 10 then [digit_char n] else decimal (n div 10) @ [digit_char (n mod 10)])"

declare decimal.simps [simp del]

definition strftime_ymd :: "date \<Rightarrow> string" where
  "strftime_ymd d =
     (case ord2ymd d of (y, m, dd) \<Rightarrow>
        decimal (nat y) @ ''-'' @ zero_padded 2 (nat m) @ ''-'' @ zero_padded 2 (nat dd))"

text \<open>\<^verbatim>\<open>sep.join(xs)\<close>\<close>

fun join :: "string \<Rightarrow> string list \<Rightarrow> string" where
  "join sep [] = []"
| "join sep [x] = x"
| "join sep (x # y # ys) = x @ sep @ join sep (y # ys)"

text \<open>
  The loop \<^verbatim>\<open>for date in sorted_dates\<close>: the rows handed to \<^verbatim>\<open>writer.writerow\<close> so
  far and the schedule dictionary, which \<^verbatim>\<open>self.schedule[date]\<close> reads through the
  inserting lookup of \<^verbatim>\<open>defaultdict\<close>.
\<close>

fun export_loop ::
  "date list \<Rightarrow> string list list \<Rightarrow> (date \<times> string list) list
     \<Rightarrow> string list list \<times> (date \<times> string list) list" where
  "export_loop [] rows sched = (rows, sched)"
| "export_loop (d # ds) rows sched =
     (case defaultdict_getitem sched d of
        (ts, sched') \<Rightarrow>
          export_loop ds
            (rows @ [[strftime_ymd d, day_name ! weekday d, join '', '' ts]]) sched')"

text \<open>
  The file system, as far as the export depends on it: the names that
  \<^verbatim>\<open>open(filename, 'w', newline='')\<close> can open. The call raises \<^verbatim>\<open>ValueError\<close> for a
  name with a null character, and \<^verbatim>\<open>OSError\<close> (\<^verbatim>\<open>FileNotFoundError\<close>,
  \<^verbatim>\<open>IsADirectoryError\<close>, \<^verbatim>\<open>PermissionError\<close>) for the empty name and for every other
  name that cannot be opened.
\<close>

type_synonym file_system = "string \<Rightarrow> bool"

text \<open>A file system in which every name can be opened, and one in which none can.\<close>

definition every_file_opens :: file_system where
  "every_file_opens name = True"


definition open_for_writing :: "file_system \<Rightarrow> string \<Rightarrow> py_error option" where
  "open_for_writing fs filename =
     (if CHR 0x00 \<in> set filename then Some ValueError
      else if filename = [] \<or> \<not> fs filename then Some OSError
      else None)"

text \<open>
  The file is opened first. The result is the error of the failed \<^verbatim>\<open>open\<close>, or the
  returned file name with the rows written to the file (the header first), and the state
  after the call.
\<close>

definition export_to_csv ::
  "file_system \<Rightarrow> scheduler \<Rightarrow> string \<Rightarrow> (py_error + string \<times> string list list) \<times> scheduler" where
  "export_to_csv fs s filename =
     (case open_for_writing fs filename of
        Some e \<Rightarrow> (Inl e, s)
      | None \<Rightarrow>
          (let sorted_dates = sort (map fst (schedule s))
           in case export_loop sorted_dates [[''Date'', ''Day'', ''Tasks'']] (schedule s) of
                (rows, sched') \<Rightarrow> (Inr (filename, rows), s\<lparr>schedule := sched'\<rparr>)))"

subsection \<open>Sequences of operations\<close>

text \<open>
  A call of one of the five operations, with its arguments and, where the method reads
  the clock, the date that \<^verbatim>\<open>datetime.date.today()\<close> returns during the call; the
  export comes with the file system at the time of the call.
\<close>

datatype operation =
    AddTask date string "int list" "date option"
  | AddTaskWithRepetitions date string int int "date option"
  | GenerateSchedule date int
  | GetTasksForDate date
  | ExportToCsv file_system string

text \<open>
  The state after a call; a caller that catches the exception of a failed call goes on
  with the state the call left behind.
\<close>

fun step :: "scheduler \<Rightarrow> operation \<Rightarrow> scheduler" where
  "step s (AddTask today name ivs start) = state_of (add_task today s name ivs start)"
| "step s (AddTaskWithRepetitions today name interval repetitions start) =
     state_of (add_task_with_repetitions today s name interval repetitions start)"
| "step s (GenerateSchedule today days) = state_of (generate_schedule today s days)"
| "step s (GetTasksForDate d) = snd (get_tasks_for_date s d)"
| "step s (ExportToCsv fs filename) = snd (export_to_csv fs s filename)"

fun run :: "scheduler \<Rightarrow> operation list \<Rightarrow> scheduler" where
  "run s [] = s"
| "run s (x # xs) = run (step s x) xs"

subsection \<open>Notions used in the statements\<close>

text \<open>
  The offset \<open>i\<close> from \<open>start\<close> is a date: \<^verbatim>\<open>start + timedelta(days=i)\<close> does not
  raise.
\<close>

definition representable :: "date \<Rightarrow> int \<Rightarrow> bool" where
  "representable start i \<longleftrightarrow> date_add start i = Inr (start + i)"

text \<open>
  The offset list \<^verbatim>\<open>[0, k, 2k, ..., (n-1)k]\<close> as the specification writes it, for the
  comparison with the list that the loop of \<^verbatim>\<open>add_task_with_repetitions\<close> builds.
\<close>

definition spec_offsets :: "int \<Rightarrow> int \<Rightarrow> int list" where
  "spec_offsets k n = map (\<lambda>i. i * k) [0..n - 1]"

text \<open>
  The names that the stored tasks \<open>ts\<close> put under the date \<open>d\<close>: in the order of the
  tasks, each name once for every offset of its list that leads to \<open>d\<close>.
\<close>

definition due :: "(string \<times> task_info) list \<Rightarrow> date \<Rightarrow> string list" where
  "due ts d =
     concat (map (\<lambda>(name, info).
                    map (\<lambda>_. name) (filter (\<lambda>i. start_date info + i = d) (intervals info))) ts)"

text \<open>
  What holds of the two dictionaries in every state the operations reach: the keys of
  each are distinct, no date of the index has an empty list, and every date of the index
  is a date.
\<close>

definition wf_schedule :: "(date \<times> string list) list \<Rightarrow> bool" where
  "wf_schedule sched \<longleftrightarrow>
     distinct (map fst sched) \<and> (\<forall>(d, ts)\<in>set sched. ts \<noteq> [] \<and> valid_date d)"

definition wf_state :: "scheduler \<Rightarrow> bool" where
  "wf_state s \<longleftrightarrow> distinct (map fst (tasks s)) \<and> wf_schedule (schedule s)"

text \<open>
  The entry of the name \<open>n\<close> under the date \<open>d\<close> is derivable from the task map \<open>ts\<close>:
  the definition stored for \<open>n\<close> has an offset that leads from its start date to \<open>d\<close>.
\<close>

definition derivable_entry :: "(string \<times> task_info) list \<Rightarrow> date \<Rightarrow> string \<Rightarrow> bool" where
  "derivable_entry ts d n \<longleftrightarrow>
     (case map_of ts n of
        None \<Rightarrow> False
      | Some info \<Rightarrow> \<exists>i\<in>set (intervals info). start_date info + i = d)"

definition derivable_schedule ::
  "(string \<times> task_info) list \<Rightarrow> (date \<times> string list) list \<Rightarrow> bool" where
  "derivable_schedule ts sched \<longleftrightarrow>
     (\<forall>(d, names)\<in>set sched. \<forall>n\<in>set names. derivable_entry ts d n)"

definition derivable :: "scheduler \<Rightarrow> bool" where
  "derivable s \<longleftrightarrow> derivable_schedule (tasks s) (schedule s)"

text \<open>
  The definition given to an add operation still derives every entry that the index
  holds for the name; so it is for a name that the index does not list.
\<close>

definition keeps_entries :: "scheduler \<Rightarrow> string \<Rightarrow> int list \<Rightarrow> date \<Rightarrow> bool" where
  "keeps_entries s name ivs start \<longleftrightarrow>
     (\<forall>(d, names)\<in>set (schedule s). name \<in> set names \<longrightarrow> (\<exists>i\<in>set ivs. start + i = d))"

fun keeps_entries_op :: "scheduler \<Rightarrow> operation \<Rightarrow> bool" where
  "keeps_entries_op s (AddTask today name ivs start) =
     keeps_entries s name ivs (case start of None \<Rightarrow> today | Some d \<Rightarrow> d)"
| "keeps_entries_op s (AddTaskWithRepetitions today name interval repetitions start) =
     keeps_entries s name (repetition_loop (nat repetitions) interval [] 0)
       (case start of None \<Rightarrow> today | Some d \<Rightarrow> d)"
| "keeps_entries_op s (GenerateSchedule today days) = True"
| "keeps_entries_op s (GetTasksForDate d) = True"
| "keeps_entries_op s (ExportToCsv fs filename) = True"

fun admissible :: "scheduler \<Rightarrow> operation list \<Rightarrow> bool" where
  "admissible s [] = True"
| "admissible s (x # xs) = (keeps_entries_op s x \<and> admissible (step s x) xs)"

text \<open>The row that the export writes for the date \<open>d\<close> of the index \<open>sched\<close>.\<close>

definition export_row :: "(date \<times> string list) list \<Rightarrow> date \<Rightarrow> string list" where
  "export_row sched d = [strftime_ymd d, day_name ! weekday d, join '', '' (dict_get sched d)]"







section \<open>Properties\<close>

subsection \<open>Dictionaries\<close>

lemma defaultdict_getitem_fst: "fst (defaultdict_getitem sched k) = dict_get sched k"
  by (induction sched) (auto split: prod.splits)

lemma dict_get_defaultdict_getitem:
  "dict_get (snd (defaultdict_getitem sched k)) k' = dict_get sched k'"
  by (induction sched) (auto split: prod.splits)

lemma map_fst_defaultdict_getitem:
  "map fst (snd (defaultdict_getitem sched k)) =
     (if k \<in> fst ` set sched then map fst sched else map fst sched @ [k])"
  by (induction sched) (force split: prod.splits)+

lemma defaultdict_getitem_present:
  "k \<in> fst ` set sched \<Longrightarrow> snd (defaultdict_getitem sched k) = sched"
  by (induction sched) (force split: prod.splits)+

lemma dict_get_dict_set:
  "dict_get (dict_set sched k v) k' = (if k = k' then v else dict_get sched k')"
  by (induction sched) auto

lemma map_fst_dict_set:
  "map fst (dict_set sched k v) =
     (if k \<in> fst ` set sched then map fst sched else map fst sched @ [k])"
  by (induction sched) force+

lemma keys_defaultdict_getitem:
  "fst ` set (snd (defaultdict_getitem sched k)) = insert k (fst ` set sched)"
  using arg_cong [OF map_fst_defaultdict_getitem [of sched k], of set] by (auto split: if_splits)

lemma keys_dict_set: "fst ` set (dict_set sched k v) = insert k (fst ` set sched)"
  using arg_cong [OF map_fst_dict_set [of sched k v], of set] by (auto split: if_splits)

lemma distinct_dict_set:
  "distinct (map fst sched) \<Longrightarrow> distinct (map fst (dict_set sched k v))"
  by (simp add: map_fst_dict_set)

lemma distinct_defaultdict_getitem:
  "distinct (map fst sched) \<Longrightarrow> distinct (map fst (snd (defaultdict_getitem sched k)))"
  by (simp add: map_fst_defaultdict_getitem)

lemma dict_set_defaultdict_getitem_subset:
  "set (dict_set (snd (defaultdict_getitem sched k)) k v) \<subseteq> insert (k, v) (set sched)"
  by (induction sched) (auto split: prod.splits if_splits)

lemma schedule_append_eq:
  "schedule_append sched d name = dict_set (snd (defaultdict_getitem sched d)) d (dict_get sched d @ [name])"
  by (simp add: schedule_append_def split: prod.splits) (metis defaultdict_getitem_fst fst_conv snd_conv)

lemma dict_get_schedule_append:
  "dict_get (schedule_append sched d name) d' =
     dict_get sched d' @ (if d = d' then [name] else [])"
  by (simp add: schedule_append_eq dict_get_dict_set dict_get_defaultdict_getitem)

lemma map_fst_schedule_append:
  "map fst (schedule_append sched d name) =
     (if d \<in> fst ` set sched then map fst sched else map fst sched @ [d])"
  by (simp add: schedule_append_eq map_fst_dict_set map_fst_defaultdict_getitem keys_defaultdict_getitem)

lemma keys_schedule_append:
  "fst ` set (schedule_append sched d name) = insert d (fst ` set sched)"
  by (simp add: schedule_append_eq keys_dict_set keys_defaultdict_getitem)

lemma distinct_schedule_append:
  "distinct (map fst sched) \<Longrightarrow> distinct (map fst (schedule_append sched d name))"
  by (simp add: map_fst_schedule_append)

lemma set_schedule_append:
  "set (schedule_append sched d name) \<subseteq> insert (d, dict_get sched d @ [name]) (set sched)"
  by (simp add: schedule_append_eq dict_set_defaultdict_getitem_subset)

subsection \<open>Dates\<close>

lemma date_add_Inr_iff:
  "date_add d n = Inr x \<longleftrightarrow> x = d + n \<and> \<bar>n\<bar> \<le> 999999999 \<and> valid_date (d + n)"
  by (auto simp: date_add_def)

lemma date_add_cases:
  "date_add d n = Inr (d + n) \<or> date_add d n = Inl OverflowError"
  by (simp add: date_add_def)

lemma not_representable: "\<not> representable start i \<longleftrightarrow> date_add start i = Inl OverflowError"
  using date_add_cases [of start i] by (auto simp: representable_def)

lemma representable_step:
  "representable start i \<Longrightarrow> date_add start i = Inr (start + i)"
  by (simp add: representable_def)

subsection \<open>The loop of add\_task\<close>

lemma add_task_loop_Returned:
  "is_Returned (add_task_loop name start ivs sched) \<longleftrightarrow> (\<forall>i\<in>set ivs. representable start i)"
proof (induction ivs arbitrary: sched)
  case Nil
  then show ?case by simp
next
  case (Cons i ivs)
  show ?case
    using date_add_cases [of start i] Cons.IH
    by (auto simp: representable_def)
qed

lemma add_task_loop_get:
  "dict_get (state_of (add_task_loop name start ivs sched)) d =
     dict_get sched d @
     map (\<lambda>_. name) (filter (\<lambda>i. start + i = d) (takeWhile (representable start) ivs))"
proof (induction ivs arbitrary: sched)
  case Nil
  then show ?case by simp
next
  case (Cons i ivs)
  show ?case
  proof (cases "representable start i")
    case True
    then show ?thesis
      by (auto simp: representable_step Cons.IH dict_get_schedule_append)
  next
    case False
    moreover from False have "date_add start i = Inl OverflowError"
      by (simp add: not_representable)
    ultimately show ?thesis by simp
  qed
qed

lemma add_task_loop_invariant:
  assumes "P sched"
    and "\<And>sched i. P sched \<Longrightarrow> i \<in> set ivs \<Longrightarrow> representable start i \<Longrightarrow>
           P (schedule_append sched (start + i) name)"
  shows "P (state_of (add_task_loop name start ivs sched))"
  using assms
proof (induction ivs arbitrary: sched)
  case Nil
  then show ?case by simp
next
  case (Cons i ivs)
  show ?case
  proof (cases "representable start i")
    case True
    then have "P (schedule_append sched (start + i) name)"
      using Cons.prems by simp
    then have "P (state_of (add_task_loop name start ivs (schedule_append sched (start + i) name)))"
      using Cons.prems(2) by (intro Cons.IH) simp_all
    then show ?thesis using True by (simp add: representable_def)
  next
    case False
    then show ?thesis using Cons.prems(1) by (simp add: not_representable)
  qed
qed

subsection \<open>The loops of generate\_schedule\<close>

lemma generate_intervals_Returned:
  "is_Returned (generate_intervals lo hi name start ivs sched) \<longleftrightarrow>
     (\<forall>i\<in>set ivs. representable start i)"
proof (induction ivs arbitrary: sched)
  case Nil
  then show ?case by simp
next
  case (Cons i ivs)
  show ?case
    using date_add_cases [of start i] Cons.IH
    by (auto simp: representable_def)
qed

lemma generate_intervals_get:
  "dict_get (state_of (generate_intervals lo hi name start ivs sched)) d =
     dict_get sched d @
     (if lo \<le> d \<and> d \<le> hi
      then map (\<lambda>_. name) (filter (\<lambda>i. start + i = d) (takeWhile (representable start) ivs))
      else [])"
proof (induction ivs arbitrary: sched)
  case Nil
  then show ?case by simp
next
  case (Cons i ivs)
  show ?case
  proof (cases "representable start i")
    case True
    then show ?thesis
      by (auto simp: representable_step Cons.IH dict_get_schedule_append)
  next
    case False
    moreover from False have "date_add start i = Inl OverflowError"
      by (simp add: not_representable)
    ultimately show ?thesis by simp
  qed
qed

lemma generate_intervals_invariant:
  assumes "P sched"
    and "\<And>sched i. P sched \<Longrightarrow> i \<in> set ivs \<Longrightarrow> representable start i \<Longrightarrow>
           lo \<le> start + i \<Longrightarrow> start + i \<le> hi \<Longrightarrow>
           P (schedule_append sched (start + i) name)"
  shows "P (state_of (generate_intervals lo hi name start ivs sched))"
  using assms
proof (induction ivs arbitrary: sched)
  case Nil
  then show ?case by simp
next
  case (Cons i ivs)
  show ?case
  proof (cases "representable start i")
    case True
    let ?sched' = "if lo \<le> start + i \<and> start + i \<le> hi
                   then schedule_append sched (start + i) name else sched"
    have "P ?sched'"
      using Cons.prems True by simp
    then have "P (state_of (generate_intervals lo hi name start ivs ?sched'))"
      using Cons.prems(2) by (intro Cons.IH) simp_all
    then show ?thesis using True by (simp add: representable_def)
  next
    case False
    then show ?thesis using Cons.prems(1) by (simp add: not_representable)
  qed
qed

lemma is_Returned_iff: "is_Returned x \<longleftrightarrow> x = Returned (state_of x)"
  by (cases x) simp_all

lemma takeWhile_all: "\<forall>i\<in>set ivs. P i \<Longrightarrow> takeWhile P ivs = ivs"
  by (simp add: takeWhile_eq_all_conv)

lemma generate_intervals_Returned_get:
  assumes "generate_intervals lo hi name start ivs sched = Returned sched'"
  shows "dict_get sched' d =
     dict_get sched d @
     (if lo \<le> d \<and> d \<le> hi
      then map (\<lambda>_. name) (filter (\<lambda>i. start + i = d) ivs) else [])"
proof -
  have "is_Returned (generate_intervals lo hi name start ivs sched)"
    using assms by simp
  then have all: "\<forall>i\<in>set ivs. representable start i"
    by (simp add: generate_intervals_Returned)
  show ?thesis
    using generate_intervals_get [of lo hi name start ivs sched d] assms
    by (simp add: takeWhile_all [OF all])
qed

lemma generate_tasks_Returned:
  "is_Returned (generate_tasks lo hi ts sched) \<longleftrightarrow>
     (\<forall>(name, info)\<in>set ts. \<forall>i\<in>set (intervals info). representable (start_date info) i)"
proof (induction ts arbitrary: sched)
  case Nil
  then show ?case by simp
next
  case (Cons t ts)
  obtain name info where t: "t = (name, info)" by (cases t)
  show ?case
  proof (cases "generate_intervals lo hi name (start_date info) (intervals info) sched")
    case (Returned sched')
    then have "\<forall>i\<in>set (intervals info). representable (start_date info) i"
      using generate_intervals_Returned [of lo hi name "start_date info" "intervals info" sched]
      by simp
    then show ?thesis using Returned t Cons.IH by simp
  next
    case (Raised e sched')
    then have "\<not> (\<forall>i\<in>set (intervals info). representable (start_date info) i)"
      using generate_intervals_Returned [of lo hi name "start_date info" "intervals info" sched]
      by simp
    then show ?thesis using Raised t by simp
  qed
qed

lemma generate_tasks_Returned_get:
  "generate_tasks lo hi ts sched = Returned sched' \<Longrightarrow>
   dict_get sched' d = dict_get sched d @ (if lo \<le> d \<and> d \<le> hi then due ts d else [])"
proof (induction ts arbitrary: sched)
  case Nil
  then show ?case by (simp add: due_def)
next
  case (Cons t ts)
  obtain name info where t: "t = (name, info)" by (cases t)
  show ?case
  proof (cases "generate_intervals lo hi name (start_date info) (intervals info) sched")
    case (Returned sched1)
    then have rest: "generate_tasks lo hi ts sched1 = Returned sched'"
      using Cons.prems t by simp
    have "dict_get sched' d = dict_get sched1 d @ (if lo \<le> d \<and> d \<le> hi then due ts d else [])"
      using rest by (rule Cons.IH)
    then show ?thesis
      using generate_intervals_Returned_get [OF Returned, of d] t
      by (simp add: due_def)
  next
    case (Raised e sched1)
    then show ?thesis using Cons.prems t by simp
  qed
qed

lemma generate_tasks_invariant:
  assumes "P sched"
    and "\<And>sched name info i. P sched \<Longrightarrow> (name, info) \<in> set ts \<Longrightarrow> i \<in> set (intervals info) \<Longrightarrow>
           representable (start_date info) i \<Longrightarrow>
           lo \<le> start_date info + i \<Longrightarrow> start_date info + i \<le> hi \<Longrightarrow>
           P (schedule_append sched (start_date info + i) name)"
  shows "P (state_of (generate_tasks lo hi ts sched))"
  using assms
proof (induction ts arbitrary: sched)
  case Nil
  then show ?case by simp
next
  case (Cons t ts)
  obtain name info where t: "t = (name, info)" by (cases t)
  let ?inner = "generate_intervals lo hi name (start_date info) (intervals info) sched"
  have inner: "P (state_of ?inner)"
    using Cons.prems(1)
  proof (rule generate_intervals_invariant)
    fix sched i
    assume "P sched" "i \<in> set (intervals info)" "representable (start_date info) i"
      "lo \<le> start_date info + i" "start_date info + i \<le> hi"
    then show "P (schedule_append sched (start_date info + i) name)"
      using Cons.prems(2) [of sched name info i] t by simp
  qed
  show ?case
  proof (cases ?inner)
    case (Returned sched1)
    have "P (state_of (generate_tasks lo hi ts sched1))"
    proof (rule Cons.IH)
      show "P sched1" using inner Returned by simp
    next
      fix sched name info i
      assume "P sched" "(name, info) \<in> set ts" "i \<in> set (intervals info)"
        "representable (start_date info) i"
        "lo \<le> start_date info + i" "start_date info + i \<le> hi"
      then show "P (schedule_append sched (start_date info + i) name)"
        using Cons.prems(2) [of sched name info i] by simp
    qed
    then show ?thesis using Returned t by simp
  next
    case (Raised e sched1)
    then show ?thesis using inner t by simp
  qed
qed

subsection \<open>add\_task and add\_task\_with\_repetitions\<close>

lemma map_outcome_state: "state_of (map_outcome f x) = f (state_of x)"
  by (cases x) simp_all

lemma map_outcome_is_Returned: "is_Returned (map_outcome f x) = is_Returned x"
  by (cases x) simp_all

lemma add_task_state:
  "state_of (add_task today s name ivs (Some start)) =
     \<lparr>tasks = dict_set (tasks s) name \<lparr>intervals = ivs, start_date = start\<rparr>,
      schedule = state_of (add_task_loop name start ivs (schedule s))\<rparr>"
  by (simp add: add_task_def Let_def map_outcome_state)

lemma add_task_is_Returned:
  "is_Returned (add_task today s name ivs (Some start)) \<longleftrightarrow> (\<forall>i\<in>set ivs. representable start i)"
  by (simp add: add_task_def Let_def map_outcome_is_Returned add_task_loop_Returned)

lemma repetition_loop_eq:
  "repetition_loop n k acc cur = acc @ map (\<lambda>i. cur + int i * k) [0..<n]"
proof (induction n arbitrary: acc cur)
  case 0
  then show ?case by simp
next
  case (Suc n)
  have "map (\<lambda>i. cur + int i * k) [0..<Suc n] = cur # map (\<lambda>i. (cur + k) + int i * k) [0..<n]"
    by (simp add: upt_conv_Cons map_Suc_upt [symmetric] algebra_simps del: upt_Suc)
  with Suc show ?case by simp
qed

lemma upto_int_nat: "[0..int m - 1] = map int [0..<m]"
proof (induction m)
  case 0
  then show ?case by simp
next
  case (Suc m)
  have "[0..int (Suc m) - 1] = [0..int m - 1] @ [int m]"
    using upto_rec2 [of 0 "int m"] by simp
  with Suc show ?case by simp
qed

lemma spec_offsets_nat: "spec_offsets k n = map (\<lambda>i. int i * k) [0..<nat n]"
proof (cases "0 \<le> n")
  case True
  then have "[0..n - 1] = map int [0..<nat n]"
    using upto_int_nat [of "nat n"] by simp
  then show ?thesis by (simp add: spec_offsets_def comp_def)
next
  case False
  then show ?thesis by (simp add: spec_offsets_def)
qed

lemma repetition_loop_spec_offsets:
  "repetition_loop (nat n) k [] 0 = spec_offsets k n"
  by (simp add: repetition_loop_eq spec_offsets_nat)

subsection \<open>The invariant of the reachable states\<close>

lemma map_of_dict_set: "map_of (dict_set al k v) = (map_of al)(k \<mapsto> v)"
  by (induction al) auto

lemma dict_get_in_set: "dict_get sched d \<noteq> [] \<Longrightarrow> (d, dict_get sched d) \<in> set sched"
  by (induction sched) (auto split: if_splits)




lemma set_due:
  "set (due ts d) =
     {name. \<exists>info. (name, info) \<in> set ts \<and> (\<exists>i\<in>set (intervals info). start_date info + i = d)}"
  by (induction ts) (auto simp: due_def)

lemma wf_schedule_append:
  assumes "wf_schedule sched" and "valid_date d"
  shows "wf_schedule (schedule_append sched d name)"
proof -
  have "distinct (map fst (schedule_append sched d name))"
    using assms by (simp add: wf_schedule_def distinct_schedule_append)
  moreover have "\<forall>(d', ts)\<in>set (schedule_append sched d name). ts \<noteq> [] \<and> valid_date d'"
    using assms set_schedule_append [of sched d name] by (auto simp: wf_schedule_def)
  ultimately show ?thesis by (simp add: wf_schedule_def)
qed

lemma representable_valid: "representable start i \<Longrightarrow> valid_date (start + i)"
  by (simp add: representable_def date_add_Inr_iff)

lemma wf_add_task_loop:
  "wf_schedule sched \<Longrightarrow> wf_schedule (state_of (add_task_loop name start ivs sched))"
  by (rule add_task_loop_invariant) (simp_all add: wf_schedule_append representable_valid)

lemma wf_generate_tasks:
  "wf_schedule sched \<Longrightarrow> wf_schedule (state_of (generate_tasks lo hi ts sched))"
  by (rule generate_tasks_invariant) (simp_all add: wf_schedule_append representable_valid)

lemma wf_schedule_empty: "wf_schedule []"
  by (simp add: wf_schedule_def)

lemma generate_schedule_state:
  "state_of (generate_schedule today s D) =
     (case date_add today D of
        Inl e \<Rightarrow> s
      | Inr end_date \<Rightarrow> s\<lparr>schedule := state_of (generate_tasks today end_date (tasks s) [])\<rparr>)"
  by (simp add: generate_schedule_def map_outcome_state split: sum.splits)

lemma add_task_state_opt:
  "state_of (add_task today s name ivs start) =
     \<lparr>tasks = dict_set (tasks s) name
               \<lparr>intervals = ivs, start_date = (case start of None \<Rightarrow> today | Some d \<Rightarrow> d)\<rparr>,
      schedule = state_of (add_task_loop name (case start of None \<Rightarrow> today | Some d \<Rightarrow> d) ivs
                   (schedule s))\<rparr>"
  by (simp add: add_task_def Let_def map_outcome_state)

lemma add_task_with_repetitions_eq:
  "add_task_with_repetitions today s name k n start =
     add_task today s name (repetition_loop (nat n) k [] 0)
       (Some (case start of None \<Rightarrow> today | Some d \<Rightarrow> d))"
  by (simp add: add_task_with_repetitions_def Let_def)

lemma wf_add_task: "wf_state s \<Longrightarrow> wf_state (state_of (add_task today s name ivs start))"
  by (simp add: wf_state_def add_task_state_opt distinct_dict_set wf_add_task_loop)

lemma wf_generate_schedule: "wf_state s \<Longrightarrow> wf_state (state_of (generate_schedule today s D))"
  by (simp add: wf_state_def generate_schedule_state wf_generate_tasks wf_schedule_empty
      split: sum.splits)

lemma export_loop_present:
  "set ds \<subseteq> fst ` set sched \<Longrightarrow>
   export_loop ds rows sched = (rows @ map (export_row sched) ds, sched)"
proof (induction ds arbitrary: rows)
  case Nil
  then show ?case by simp
next
  case (Cons d ds)
  then have "defaultdict_getitem sched d = (dict_get sched d, sched)"
    using defaultdict_getitem_fst [of sched d] defaultdict_getitem_present [of d sched]
    by (simp add: prod_eq_iff)
  then show ?case using Cons by (simp add: export_row_def)
qed

lemma export_to_csv_eq:
  "export_to_csv fs s filename =
     (case open_for_writing fs filename of
        Some e \<Rightarrow> (Inl e, s)
      | None \<Rightarrow>
          (Inr (filename, [''Date'', ''Day'', ''Tasks''] #
                  map (export_row (schedule s)) (sort (map fst (schedule s)))), s))"
  by (simp add: export_to_csv_def Let_def export_loop_present split: option.splits)

lemma export_to_csv_state: "snd (export_to_csv fs s filename) = s"
  by (simp add: export_to_csv_eq split: option.splits)

lemma wf_step: "wf_state s \<Longrightarrow> wf_state (step s x)"
  by (cases x)
    (simp_all add: wf_add_task wf_generate_schedule add_task_with_repetitions_eq
      get_tasks_for_date_def export_to_csv_state)

lemma wf_run: "wf_state s \<Longrightarrow> wf_state (run s xs)"
  by (induction xs arbitrary: s) (simp_all add: wf_step)

lemma wf_init: "wf_state init"
  by (simp add: wf_state_def wf_schedule_def init_def)

lemma generate_tasks_keys:
  "fst ` set (state_of (generate_tasks lo hi ts sched)) \<subseteq> fst ` set sched \<union> {lo..hi}"
  by (rule generate_tasks_invariant) (auto simp: keys_schedule_append)

lemma generate_schedule_is_Returned:
  "is_Returned (generate_schedule today s D) \<longleftrightarrow>
     representable today D \<and>
     (\<forall>(name, info)\<in>set (tasks s). \<forall>i\<in>set (intervals info). representable (start_date info) i)"
proof (cases "representable today D")
  case True
  then show ?thesis
    by (simp add: generate_schedule_def representable_step map_outcome_is_Returned
        generate_tasks_Returned)
next
  case False
  moreover from False have "date_add today D = Inl OverflowError"
    by (simp add: not_representable)
  ultimately show ?thesis by (simp add: generate_schedule_def)
qed

lemma add_task_is_Returned_opt:
  "is_Returned (add_task today s name ivs start) \<longleftrightarrow>
     (\<forall>i\<in>set ivs. representable (case start of None \<Rightarrow> today | Some d \<Rightarrow> d) i)"
  by (simp add: add_task_def Let_def map_outcome_is_Returned add_task_loop_Returned)

subsection \<open>Derivable entries\<close>

lemma derivable_schedule_append:
  assumes "derivable_schedule ts sched" and "derivable_entry ts d name"
  shows "derivable_schedule ts (schedule_append sched d name)"
  unfolding derivable_schedule_def
proof (clarify)
  fix d' names n
  assume mem: "(d', names) \<in> set (schedule_append sched d name)" and n: "n \<in> set names"
  from mem set_schedule_append [of sched d name]
  consider "(d', names) \<in> set sched" | "d' = d" "names = dict_get sched d @ [name]"
    by auto
  then show "derivable_entry ts d' n"
  proof cases
    case 1
    then show ?thesis using assms(1) n by (auto simp: derivable_schedule_def)
  next
    case 2
    show ?thesis
    proof (cases "n \<in> set (dict_get sched d)")
      case True
      then have "(d, dict_get sched d) \<in> set sched"
        by (intro dict_get_in_set) auto
      then show ?thesis using assms(1) True 2 by (auto simp: derivable_schedule_def)
    next
      case False
      then have "n = name" using n 2 by simp
      then show ?thesis using assms(2) 2 by simp
    qed
  qed
qed

lemma derivable_add_task:
  assumes "derivable s"
    and "keeps_entries s name ivs (case start of None \<Rightarrow> today | Some d \<Rightarrow> d)"
  shows "derivable (state_of (add_task today s name ivs start))"
proof -
  let ?start = "case start of None \<Rightarrow> today | Some d \<Rightarrow> d"
  let ?ts = "dict_set (tasks s) name \<lparr>intervals = ivs, start_date = ?start\<rparr>"
  have new: "derivable_entry ?ts (?start + i) name" if "i \<in> set ivs" for i
    using that by (auto simp: derivable_entry_def map_of_dict_set)
  have old: "derivable_schedule ?ts (schedule s)"
    unfolding derivable_schedule_def
  proof (clarify)
    fix d names n
    assume mem: "(d, names) \<in> set (schedule s)" and n: "n \<in> set names"
    show "derivable_entry ?ts d n"
    proof (cases "n = name")
      case True
      then obtain i where "i \<in> set ivs" "?start + i = d"
        using assms(2) mem n by (auto simp: keeps_entries_def)
      then show ?thesis using new True by auto
    next
      case False
      then show ?thesis
        using assms(1) mem n
        by (auto simp: derivable_def derivable_schedule_def derivable_entry_def map_of_dict_set)
    qed
  qed
  have "derivable_schedule ?ts (state_of (add_task_loop name ?start ivs (schedule s)))"
    using old by (rule add_task_loop_invariant) (simp add: derivable_schedule_append new)
  then show ?thesis by (simp add: derivable_def add_task_state_opt)
qed

lemma derivable_generate_tasks:
  assumes "distinct (map fst ts)"
  shows "derivable_schedule ts (state_of (generate_tasks lo hi ts []))"
proof (rule generate_tasks_invariant)
  show "derivable_schedule ts []" by (simp add: derivable_schedule_def)
next
  fix sched name info i
  assume "derivable_schedule ts sched" "(name, info) \<in> set ts" "i \<in> set (intervals info)"
  moreover from this assms have "derivable_entry ts (start_date info + i) name"
    by (auto simp: derivable_entry_def)
  ultimately show "derivable_schedule ts (schedule_append sched (start_date info + i) name)"
    by (simp add: derivable_schedule_append)
qed

lemma derivable_generate_schedule:
  assumes "wf_state s" and "derivable s"
  shows "derivable (state_of (generate_schedule today s D))"
  using assms
  by (simp add: generate_schedule_state derivable_def wf_state_def derivable_generate_tasks
      split: sum.splits)

lemma derivable_step:
  assumes "wf_state s" and "derivable s" and "keeps_entries_op s x"
  shows "derivable (step s x)"
  using assms
  by (cases x)
    (simp_all add: derivable_add_task derivable_generate_schedule add_task_with_repetitions_eq
      get_tasks_for_date_def export_to_csv_state)

lemma derivable_run:
  "wf_state s \<Longrightarrow> derivable s \<Longrightarrow> admissible s xs \<Longrightarrow> derivable (run s xs)"
  by (induction xs arbitrary: s) (simp_all add: derivable_step wf_step)

subsection \<open>Calendar dates and their text\<close>




















subsection \<open>The export\<close>

lemma weekday_less: "weekday d < 7"
  by (simp add: weekday_def nat_less_iff)

lemma day_name_nth: "day_name ! weekday d \<in> set day_name"
  using weekday_less [of d] by (intro nth_mem) (simp add: day_name_def)








section \<open>The claims\<close>

text \<open>
  C1. \<^verbatim>\<open>add_task\<close> raises \<^verbatim>\<open>OverflowError\<close> at the first offset that does not lead to
  a date, and the offsets after it are not scheduled. When every offset of \<open>L\<close> leads
  from the start date to a date and the index has no entry naming the task, the call
  returns, \<^verbatim>\<open>get_tasks_for_date(start_date + d days)\<close> contains the name for every \<open>d\<close> in
  \<open>L\<close>, and the result for any date that is not \<open>start_date + d\<close> for some \<open>d\<close> in
  \<open>L\<close> does not contain it.
\<close>

theorem add_task_schedules_exactly_the_offsets:
  assumes fresh: "\<forall>d. name \<notin> set (fst (get_tasks_for_date s d))"
    and dates: "\<forall>i\<in>set L. representable (case start of None \<Rightarrow> today | Some d \<Rightarrow> d) i"
  shows "\<exists>s'. add_task today s name L start = Returned s' \<and>
     (\<forall>i\<in>set L. name \<in> set (fst (get_tasks_for_date s'
                      ((case start of None \<Rightarrow> today | Some d \<Rightarrow> d) + i)))) \<and>
     (\<forall>d. (\<forall>i\<in>set L. d \<noteq> (case start of None \<Rightarrow> today | Some d \<Rightarrow> d) + i) \<longrightarrow>
          name \<notin> set (fst (get_tasks_for_date s' d)))"
proof -
  let ?start = "case start of None \<Rightarrow> today | Some d \<Rightarrow> d"
  let ?out = "add_task today s name L start"
  let ?s' = "state_of ?out"
  have ret: "?out = Returned ?s'"
    using dates by (simp add: add_task_is_Returned_opt is_Returned_iff [symmetric])
  have get: "fst (get_tasks_for_date ?s' d) =
      fst (get_tasks_for_date s d) @ map (\<lambda>_. name) (filter (\<lambda>i. ?start + i = d) L)" for d
    by (simp add: get_tasks_for_date_def add_task_state_opt add_task_loop_get
        takeWhile_all [OF dates])
  have "\<forall>i\<in>set L. name \<in> set (fst (get_tasks_for_date ?s' (?start + i)))"
    by (auto simp: get)
  moreover have "\<forall>d. (\<forall>i\<in>set L. d \<noteq> ?start + i) \<longrightarrow>
      name \<notin> set (fst (get_tasks_for_date ?s' d))"
    using fresh by (auto simp: get)
  ultimately show ?thesis using ret by blast
qed

theorem add_task_schedules_exactly_the_offsets_witness:
  "(\<forall>d. ''ChapterA'' \<notin> set (fst (get_tasks_for_date init d))) \<and>
   representable 738886 1 \<and> representable 738886 3 \<and> representable 738886 7 \<and>
   (\<exists>s'. add_task 738886 init ''ChapterA'' [1, 3, 7] (Some 738886) = Returned s' \<and>
      ''ChapterA'' \<in> set (fst (get_tasks_for_date s' (738886 + 1))) \<and>
      ''ChapterA'' \<in> set (fst (get_tasks_for_date s' (738886 + 7))) \<and>
      ''ChapterA'' \<notin> set (fst (get_tasks_for_date s' 738895)))"
proof -
  have fresh: "\<forall>d. ''ChapterA'' \<notin> set (fst (get_tasks_for_date init d))"
    by (simp add: get_tasks_for_date_def init_def)
  have dates: "\<forall>i\<in>set [1, 3, 7].
      representable (case Some 738886 of None \<Rightarrow> 738886 | Some d \<Rightarrow> d) i"
    by (simp add: representable_def date_add_def valid_date_def MINORD_def MAXORD_def)
  show ?thesis
    using fresh dates add_task_schedules_exactly_the_offsets [OF fresh dates]
    by auto
qed

theorem add_task_raises_on_unrepresentable_offset:
  "add_task 738886 init ''A'' [1, 1000000000, 2] (Some 738886) =
     Raised OverflowError
       \<lparr>tasks = [(''A'', \<lparr>intervals = [1, 1000000000, 2], start_date = 738886\<rparr>)],
        schedule = [(738887, [''A''])]\<rparr> \<and>
   ''A'' \<notin> set (fst (get_tasks_for_date
      (state_of (add_task 738886 init ''A'' [1, 1000000000, 2] (Some 738886))) (738886 + 2)))"
  by (simp add: add_task_def init_def Let_def date_add_def valid_date_def MINORD_def MAXORD_def
      schedule_append_def get_tasks_for_date_def)

text \<open>
  C2. For a non-negative repetition count \<open>n\<close>, \<^verbatim>\<open>add_task_with_repetitions(name, k, n,
  start_date)\<close> has the same outcome, and so leaves the same task map and schedule
  index, as \<^verbatim>\<open>add_task(name, [0, k, 2k, ..., (n-1)k], start_date)\<close> from the same state.
\<close>

theorem add_task_with_repetitions_is_add_task:
  assumes "0 \<le> n"
  shows "add_task_with_repetitions today s name k n start =
         add_task today s name (spec_offsets k n) start"
  by (cases start)
    (simp_all add: add_task_with_repetitions_def add_task_def Let_def repetition_loop_spec_offsets)

theorem add_task_with_repetitions_is_add_task_witness:
  "(0::int) \<le> 3 \<and>
   add_task_with_repetitions 738886 init ''X'' 7 3 (Some 738886) =
     add_task 738886 init ''X'' [0, 7, 14] (Some 738886)"
proof -
  have h: "(0::int) \<le> 3" by simp
  have "spec_offsets 7 3 = [0, 7, 14]"
    by (simp add: spec_offsets_def upto.simps)
  then show ?thesis
    using h add_task_with_repetitions_is_add_task [OF h, of 738886 init "''X''" 7 "Some 738886"]
    by simp
qed

text \<open>
  C3. \<^verbatim>\<open>generate_schedule(days=D)\<close> raises \<^verbatim>\<open>OverflowError\<close> before it clears the index
  when \<^verbatim>\<open>today + D days\<close> is not a date, and part-way through the rebuild at a stored
  offset that does not lead to a date. When \<^verbatim>\<open>today + D days\<close> is a date and every
  stored offset leads to a date, the call returns; the task map is unchanged; every key
  of the index lies in the window from \<open>today\<close> to \<open>today + D\<close>, both ends included;
  the index after the call does not depend on the index before it; and a name is listed
  under a date exactly when the date lies in the window and a stored task of that name
  has an offset that leads from its start date to the date.
\<close>

theorem generate_schedule_rebuilds_window:
  assumes window: "representable today D"
    and offsets: "\<forall>(name, info)\<in>set (tasks s). \<forall>i\<in>set (intervals info).
                    representable (start_date info) i"
  shows "\<exists>s'. generate_schedule today s D = Returned s' \<and> tasks s' = tasks s \<and>
     (\<forall>d\<in>fst ` set (schedule s'). today \<le> d \<and> d \<le> today + D) \<and>
     (\<forall>sched0. generate_schedule today (s\<lparr>schedule := sched0\<rparr>) D = Returned s') \<and>
     (\<forall>d name. name \<in> set (fst (get_tasks_for_date s' d)) \<longleftrightarrow>
        today \<le> d \<and> d \<le> today + D \<and>
        (\<exists>info. (name, info) \<in> set (tasks s) \<and>
                (\<exists>i\<in>set (intervals info). start_date info + i = d)))"
proof -
  let ?gen = "generate_tasks today (today + D) (tasks s) []"
  let ?s' = "s\<lparr>schedule := state_of ?gen\<rparr>"
  have add: "date_add today D = Inr (today + D)"
    using window by (rule representable_step)
  have "is_Returned ?gen"
    using offsets by (simp add: generate_tasks_Returned)
  then have gen: "?gen = Returned (state_of ?gen)"
    by (simp add: is_Returned_iff [symmetric])
  have ret: "generate_schedule today (s\<lparr>schedule := sched0\<rparr>) D = Returned ?s'" for sched0
    using add arg_cong [OF gen, of "map_outcome (\<lambda>sched. s\<lparr>schedule := sched\<rparr>)"]
    by (simp add: generate_schedule_def)
  have ret0: "generate_schedule today s D = Returned ?s'"
    using ret [of "schedule s"] by simp
  have keys: "\<forall>d\<in>fst ` set (schedule ?s'). today \<le> d \<and> d \<le> today + D"
    using generate_tasks_keys [of today "today + D" "tasks s" "[]"] by auto
  have get: "fst (get_tasks_for_date ?s' d) =
      (if today \<le> d \<and> d \<le> today + D then due (tasks s) d else [])" for d
    using generate_tasks_Returned_get [OF gen, of d] by (simp add: get_tasks_for_date_def)
  have mem: "\<forall>d name. name \<in> set (fst (get_tasks_for_date ?s' d)) \<longleftrightarrow>
        today \<le> d \<and> d \<le> today + D \<and>
        (\<exists>info. (name, info) \<in> set (tasks s) \<and>
                (\<exists>i\<in>set (intervals info). start_date info + i = d))"
    by (simp add: get set_due)
  have "tasks ?s' = tasks s" by simp
  with ret0 ret keys mem show ?thesis by blast
qed

theorem generate_schedule_rebuilds_window_witness:
  "representable 738886 3 \<and>
   representable 738886 1 \<and> representable 738886 7 \<and>
   generate_schedule 738886
     \<lparr>tasks = [(''ChapterA'', \<lparr>intervals = [1, 3, 7], start_date = 738886\<rparr>)],
      schedule = [(738000, [''Old''])]\<rparr> 3 =
   Returned \<lparr>tasks = [(''ChapterA'', \<lparr>intervals = [1, 3, 7], start_date = 738886\<rparr>)],
             schedule = [(738887, [''ChapterA'']), (738889, [''ChapterA''])]\<rparr>"
proof -
  let ?s = "\<lparr>tasks = [(''ChapterA'', \<lparr>intervals = [1, 3, 7], start_date = 738886\<rparr>)],
             schedule = [(738000, [''Old''])]\<rparr>"
  have window: "representable 738886 3"
    by (simp add: add_task_def generate_schedule_def date_add_def valid_date_def MINORD_def
        MAXORD_def schedule_append_def representable_def Let_def)
  have offsets: "\<forall>(name, info)\<in>set (tasks ?s). \<forall>i\<in>set (intervals info).
                   representable (start_date info) i"
    by (simp add: add_task_def generate_schedule_def date_add_def valid_date_def MINORD_def
        MAXORD_def schedule_append_def representable_def Let_def)
  show ?thesis
    using window generate_schedule_rebuilds_window [OF window offsets]
    by (simp add: add_task_def generate_schedule_def date_add_def valid_date_def MINORD_def
        MAXORD_def schedule_append_def representable_def Let_def)
qed

theorem generate_schedule_raises_and_keeps_or_misses_entries:
  "generate_schedule 738892
     \<lparr>tasks = [(''A'', \<lparr>intervals = [1], start_date = 738886\<rparr>)],
      schedule = [(738887, [''A''])]\<rparr> 3000000 =
     Raised OverflowError
       \<lparr>tasks = [(''A'', \<lparr>intervals = [1], start_date = 738886\<rparr>)],
        schedule = [(738887, [''A''])]\<rparr> \<and>
   \<not> (738892 :: int) \<le> 738887 \<and>
   run init [AddTask 738886 ''B'' [2, 4000000] (Some 738886),
             AddTask 738886 ''C'' [1] (Some 738886)] =
     \<lparr>tasks = [(''B'', \<lparr>intervals = [2, 4000000], start_date = 738886\<rparr>),
               (''C'', \<lparr>intervals = [1], start_date = 738886\<rparr>)],
      schedule = [(738888, [''B'']), (738887, [''C''])]\<rparr> \<and>
   generate_schedule 738886
     \<lparr>tasks = [(''B'', \<lparr>intervals = [2, 4000000], start_date = 738886\<rparr>),
               (''C'', \<lparr>intervals = [1], start_date = 738886\<rparr>)],
      schedule = [(738888, [''B'']), (738887, [''C''])]\<rparr> 90 =
     Raised OverflowError
       \<lparr>tasks = [(''B'', \<lparr>intervals = [2, 4000000], start_date = 738886\<rparr>),
                 (''C'', \<lparr>intervals = [1], start_date = 738886\<rparr>)],
        schedule = [(738888, [''B''])]\<rparr>"
  by (simp add: generate_schedule_def add_task_def init_def Let_def date_add_def valid_date_def
      MINORD_def MAXORD_def schedule_append_def)

text \<open>
  C5. \<^verbatim>\<open>add_task\<close> for a name that the task map already has is not an error: the
  call returns exactly when every offset leads to a date, as for a new name. The
  definition stored under the name is replaced, at its place in the map, the other
  definitions stay, and the list of every date keeps the entries it had, the entries of
  this call being appended to it.
\<close>

theorem add_task_existing_name_overwrites:
  assumes known: "name \<in> fst ` set (tasks s)"
  shows "(is_Returned (add_task today s name L (Some start)) \<longleftrightarrow>
            list_all (representable start) L) \<and>
     map_of (tasks (state_of (add_task today s name L (Some start)))) name =
       Some \<lparr>intervals = L, start_date = start\<rparr> \<and>
     map fst (tasks (state_of (add_task today s name L (Some start)))) = map fst (tasks s) \<and>
     (\<forall>n. n \<noteq> name \<longrightarrow>
          map_of (tasks (state_of (add_task today s name L (Some start)))) n =
          map_of (tasks s) n) \<and>
     (\<forall>d. fst (get_tasks_for_date (state_of (add_task today s name L (Some start))) d) =
           fst (get_tasks_for_date s d) @
           map (\<lambda>_. name) (filter (\<lambda>i. start + i = d) (takeWhile (representable start) L)))"
proof -
  let ?s' = "state_of (add_task today s name L (Some start))"
  have "is_Returned (add_task today s name L (Some start)) \<longleftrightarrow> list_all (representable start) L"
    by (simp add: add_task_is_Returned list_all_iff)
  moreover have "map_of (tasks ?s') name = Some \<lparr>intervals = L, start_date = start\<rparr>"
    by (simp add: add_task_state map_of_dict_set)
  moreover have "map fst (tasks ?s') = map fst (tasks s)"
    using known by (simp add: add_task_state map_fst_dict_set)
  moreover have "\<forall>n. n \<noteq> name \<longrightarrow> map_of (tasks ?s') n = map_of (tasks s) n"
    by (simp add: add_task_state map_of_dict_set)
  moreover have "\<forall>d. fst (get_tasks_for_date ?s' d) =
      fst (get_tasks_for_date s d) @
      map (\<lambda>_. name) (filter (\<lambda>i. start + i = d) (takeWhile (representable start) L))"
    by (simp add: get_tasks_for_date_def add_task_state add_task_loop_get)
  ultimately show ?thesis by blast
qed

theorem add_task_existing_name_overwrites_witness:
  "''ChapterA'' \<in> fst ` set (tasks \<lparr>tasks = [(''ChapterA'', \<lparr>intervals = [1], start_date = 738886\<rparr>)],
                                    schedule = [(738887, [''ChapterA''])]\<rparr>) \<and>
   add_task 738886
     \<lparr>tasks = [(''ChapterA'', \<lparr>intervals = [1], start_date = 738886\<rparr>)],
      schedule = [(738887, [''ChapterA''])]\<rparr> ''ChapterA'' [5] (Some 738886) =
   Returned \<lparr>tasks = [(''ChapterA'', \<lparr>intervals = [5], start_date = 738886\<rparr>)],
             schedule = [(738887, [''ChapterA'']), (738891, [''ChapterA''])]\<rparr>"
proof -
  let ?s = "\<lparr>tasks = [(''ChapterA'', \<lparr>intervals = [1], start_date = 738886\<rparr>)],
             schedule = [(738887, [''ChapterA''])]\<rparr>"
  have known: "''ChapterA'' \<in> fst ` set (tasks ?s)"
    by simp
  show ?thesis
    using known add_task_existing_name_overwrites [OF known, of 738886 "[5]" 738886]
    by (simp add: add_task_def date_add_def valid_date_def MINORD_def
        MAXORD_def schedule_append_def representable_def Let_def)
qed

text \<open>
  C6. A second \<^verbatim>\<open>generate_schedule(D)\<close> on the same day, right after the first, has the
  outcome of the first: the same schedule index, and the same task map.
\<close>

theorem generate_schedule_idempotent:
  "generate_schedule today (state_of (generate_schedule today s D)) D =
   generate_schedule today s D"
proof (cases "date_add today D")
  case (Inl e)
  then show ?thesis by (simp add: generate_schedule_def)
next
  case (Inr end_date)
  then show ?thesis
    by (cases "generate_tasks today end_date (tasks s) []") (simp_all add: generate_schedule_def)
qed

theorem generate_schedule_idempotent_witness:
  "generate_schedule 738886
     (state_of (generate_schedule 738886
        \<lparr>tasks = [(''ChapterA'', \<lparr>intervals = [1, 3, 7], start_date = 738886\<rparr>)], schedule = []\<rparr> 3)) 3 =
   Returned \<lparr>tasks = [(''ChapterA'', \<lparr>intervals = [1, 3, 7], start_date = 738886\<rparr>)],
             schedule = [(738887, [''ChapterA'']), (738889, [''ChapterA''])]\<rparr>"
  using generate_schedule_idempotent [of 738886
     "\<lparr>tasks = [(''ChapterA'', \<lparr>intervals = [1, 3, 7], start_date = 738886\<rparr>)], schedule = []\<rparr>" 3]
  by (simp add: generate_schedule_def date_add_def valid_date_def MINORD_def MAXORD_def
      schedule_append_def)

text \<open>
  C7. \<^verbatim>\<open>get_tasks_for_date(date)\<close> returns the list stored under the date, the empty
  list when the date is not a key of the index, and leaves the whole state as it was.
\<close>

theorem get_tasks_for_date_lookup:
  "fst (get_tasks_for_date s d) = (case map_of (schedule s) d of None \<Rightarrow> [] | Some ts \<Rightarrow> ts) \<and>
   (d \<notin> fst ` set (schedule s) \<longrightarrow> fst (get_tasks_for_date s d) = []) \<and>
   snd (get_tasks_for_date s d) = s"
proof -
  have "dict_get sched d = (case map_of sched d of None \<Rightarrow> [] | Some ts \<Rightarrow> ts)"
    for sched :: "(date \<times> string list) list"
    by (induction sched) auto
  moreover have "d \<notin> fst ` set sched \<Longrightarrow> dict_get sched d = []"
    for sched :: "(date \<times> string list) list"
    by (induction sched) auto
  ultimately show ?thesis by (simp add: get_tasks_for_date_def)
qed

theorem get_tasks_for_date_lookup_witness:
  "738895 \<notin> fst ` set (schedule \<lparr>tasks = [], schedule = [(738887, [''ChapterA''])]\<rparr>) \<and>
   fst (get_tasks_for_date \<lparr>tasks = [], schedule = [(738887, [''ChapterA''])]\<rparr> 738895) = [] \<and>
   fst (get_tasks_for_date \<lparr>tasks = [], schedule = [(738887, [''ChapterA''])]\<rparr> 738887) = [''ChapterA''] \<and>
   snd (get_tasks_for_date \<lparr>tasks = [], schedule = [(738887, [''ChapterA''])]\<rparr> 738895) =
     \<lparr>tasks = [], schedule = [(738887, [''ChapterA''])]\<rparr>"
  using get_tasks_for_date_lookup [of "\<lparr>tasks = [], schedule = [(738887, [''ChapterA''])]\<rparr>" 738895]
    get_tasks_for_date_lookup [of "\<lparr>tasks = [], schedule = [(738887, [''ChapterA''])]\<rparr>" 738887]
  by simp

text \<open>
  C9. \<^verbatim>\<open>add_task_with_repetitions(name, k, 0, start_date)\<close> builds the empty interval
  list, returns, stores the empty list under the name, and leaves the schedule index as
  it was: every date has the tasks it had before.
\<close>

theorem add_task_with_repetitions_zero:
  "repetition_loop (nat 0) k [] 0 = [] \<and>
   (\<exists>s'. add_task_with_repetitions today s name k 0 start = Returned s' \<and>
         map_of (tasks s') name =
           Some \<lparr>intervals = [], start_date = (case start of None \<Rightarrow> today | Some d \<Rightarrow> d)\<rparr> \<and>
         schedule s' = schedule s \<and>
         (\<forall>d. fst (get_tasks_for_date s' d) = fst (get_tasks_for_date s d)))"
  by (cases start)
    (simp_all add: add_task_with_repetitions_def add_task_def Let_def get_tasks_for_date_def
      map_of_dict_set)

theorem add_task_with_repetitions_zero_witness:
  "add_task_with_repetitions 738886 init ''X'' 7 0 (Some 738886) =
     Returned \<lparr>tasks = [(''X'', \<lparr>intervals = [], start_date = 738886\<rparr>)], schedule = []\<rparr>"
  using add_task_with_repetitions_zero [of 7 738886 init "''X''" "Some 738886"]
  by (simp add: add_task_with_repetitions_def add_task_def Let_def init_def)

text \<open>
  C4. Re-adding a name with another definition leaves the entries of the earlier
  definition in the index, so the entries of the index are not always derivable from the
  current definitions. They are at every point of a sequence of operations on a new
  scheduler in which each add operation is given a definition that still derives the
  entries that the index holds for its name.
\<close>

theorem entries_derivable_when_adds_keep_entries:
  "admissible init ops \<Longrightarrow> derivable (run init ops)"
  by (rule derivable_run) (simp_all add: wf_init, simp add: derivable_def derivable_schedule_def init_def)

theorem entries_derivable_when_adds_keep_entries_witness:
  "admissible init [AddTask 738886 ''A'' [1] (Some 738886),
                    AddTask 738886 ''A'' [5, 1] (Some 738886),
                    AddTaskWithRepetitions 738886 ''B'' 7 3 None,
                    GenerateSchedule 738886 90] \<and>
   derivable (run init [AddTask 738886 ''A'' [1] (Some 738886),
                    AddTask 738886 ''A'' [5, 1] (Some 738886),
                    AddTaskWithRepetitions 738886 ''B'' 7 3 None,
                    GenerateSchedule 738886 90])"
proof -
  have adm: "admissible init [AddTask 738886 ''A'' [1] (Some 738886),
                    AddTask 738886 ''A'' [5, 1] (Some 738886),
                    AddTaskWithRepetitions 738886 ''B'' 7 3 None,
                    GenerateSchedule 738886 90]"
    by (simp add: add_task_def add_task_with_repetitions_def generate_schedule_def
        get_tasks_for_date_def date_add_def valid_date_def MINORD_def MAXORD_def
        schedule_append_def init_def Let_def keeps_entries_def numeral_3_eq_3)
  show ?thesis
    using adm entries_derivable_when_adds_keep_entries [OF adm] by simp
qed

theorem readded_name_entry_not_derivable:
  "\<not> derivable (run init [AddTask 738886 ''A'' [1] (Some 738886),
                         AddTask 738886 ''A'' [5] (Some 738886)])"
  by (simp add: derivable_def derivable_schedule_def derivable_entry_def init_def add_task_def
      Let_def date_add_def valid_date_def MINORD_def MAXORD_def schedule_append_def)

text \<open>
  C10. After every sequence of operations on a new scheduler, whether the calls return
  or raise, every date key of the schedule index has at least one task name.
\<close>

theorem schedule_lists_never_empty:
  "\<forall>(d, ts)\<in>set (schedule (run init ops)). ts \<noteq> []"
  using wf_run [OF wf_init, of ops] by (auto simp: wf_state_def wf_schedule_def)

theorem schedule_lists_never_empty_witness:
  "(738887, [''ChapterA'']) \<in>
     set (schedule (run init [AddTask 738886 ''ChapterA'' [1] None, GetTasksForDate 1,
                              ExportToCsv every_file_opens ''schedule.csv'', GenerateSchedule 738886 90])) \<and>
   [''ChapterA''] \<noteq> ([] :: string list)"
  using schedule_lists_never_empty
     [of "[AddTask 738886 ''ChapterA'' [1] None, GetTasksForDate 1,
           ExportToCsv every_file_opens ''schedule.csv'', GenerateSchedule 738886 90]"]
  by (simp add: add_task_def generate_schedule_def get_tasks_for_date_def date_add_def
      valid_date_def MINORD_def MAXORD_def schedule_append_def init_def Let_def export_to_csv_state)




end
